theory Spec2Isabelle
  imports Main "HOL-Library.Word"
begin

section \<open>Python values, exceptions and results\<close>

text \<open>
  The module \<open>frescobaldi_app/vcs/gitjob.py\<close> is embedded function by function.
  A Python \<open>str\<close> is a sequence of Unicode code points, a byte string (\<open>QByteArray\<close>)
  a sequence of 8-bit words. The fields \<open>_stdout\<close>, \<open>_stderr\<close> and \<open>_version\<close> of a
  \<open>Git\<close> object hold values of several Python types over their life (\<open>None\<close>, a
  byte string, a list of \<open>str\<close>, a tuple of \<open>int\<close>), so they are values of the
  datatype \<open>pyval\<close>.
\<close>

type_synonym pystr = "nat list"
type_synonym byte = "8 word"

definition str_of :: "string \<Rightarrow> pystr" where
  "str_of s = map of_char s"

datatype pyval =
    PyNone
  | PyInt int
  | PyStr pystr
  | PyBytes "byte list"
  | PyList "pyval list"
  | PyTuple "pyval list"

datatype exn =
    Exception string
  | NameError string
  | TypeError
  | IndexError
  | UnicodeDecodeError

datatype 'a result = Return 'a | Raise exn

text \<open>Truth value of a Python object, as tested by \<open>if x:\<close>, \<open>not x\<close> and \<open>x or y\<close>.\<close>

fun truthy :: "pyval \<Rightarrow> bool" where
  "truthy PyNone = False"
| "truthy (PyInt i) = (i \<noteq> 0)"
| "truthy (PyStr s) = (s \<noteq> [])"
| "truthy (PyBytes b) = (b \<noteq> [])"
| "truthy (PyList xs) = (xs \<noteq> [])"
| "truthy (PyTuple xs) = (xs \<noteq> [])"

text \<open>\<open>x[0]\<close>: the first item of a sequence; \<open>IndexError\<close> on an empty one,
  \<open>TypeError\<close> on an object that is not subscriptable. An item of a \<open>str\<close> is a
  \<open>str\<close> of length one, an item of a \<open>QByteArray\<close> a byte string of length one.\<close>

fun getitem0 :: "pyval \<Rightarrow> pyval result" where
  "getitem0 (PyList xs) = (case xs of [] \<Rightarrow> Raise IndexError | x # _ \<Rightarrow> Return x)"
| "getitem0 (PyTuple xs) = (case xs of [] \<Rightarrow> Raise IndexError | x # _ \<Rightarrow> Return x)"
| "getitem0 (PyStr s) = (case s of [] \<Rightarrow> Raise IndexError | c # _ \<Rightarrow> Return (PyStr [c]))"
| "getitem0 (PyBytes b) = (case b of [] \<Rightarrow> Raise IndexError | c # _ \<Rightarrow> Return (PyBytes [c]))"
| "getitem0 PyNone = Raise TypeError"
| "getitem0 (PyInt i) = Raise TypeError"

section \<open>Decoding and line splitting\<close>

text \<open>
  \<open>str(data, 'utf-8')\<close> decodes strictly: an ill-formed byte sequence raises
  \<open>UnicodeDecodeError\<close> (\<open>None\<close> here). The well-formed sequences are those of the
  Unicode standard: no overlong forms, no surrogates, nothing above U+10FFFF.
\<close>

definition cont :: "byte \<Rightarrow> bool" where
  "cont b = (0x80 \<le> b \<and> b \<le> 0xBF)"

definition second_ok :: "byte \<Rightarrow> byte \<Rightarrow> bool" where
  "second_ok b0 b1 =
     (if b0 = 0xE0 then 0xA0 \<le> b1 \<and> b1 \<le> 0xBF
      else if b0 = 0xED then 0x80 \<le> b1 \<and> b1 \<le> 0x9F
      else if b0 = 0xF0 then 0x90 \<le> b1 \<and> b1 \<le> 0xBF
      else if b0 = 0xF4 then 0x80 \<le> b1 \<and> b1 \<le> 0x8F
      else cont b1)"

definition tail6 :: "byte \<Rightarrow> nat" where
  "tail6 b = unat b - 0x80"

fun utf8_decode :: "byte list \<Rightarrow> pystr option" where
  "utf8_decode [] = Some []"
| "utf8_decode (b0 # bs) =
     (if b0 < 0x80 then map_option (Cons (unat b0)) (utf8_decode bs)
      else if 0xC2 \<le> b0 \<and> b0 \<le> 0xDF then
        (case bs of
           b1 # r \<Rightarrow>
             if cont b1
             then map_option (Cons ((unat b0 - 0xC0) * 64 + tail6 b1)) (utf8_decode r)
             else None
         | _ \<Rightarrow> None)
      else if 0xE0 \<le> b0 \<and> b0 \<le> 0xEF then
        (case bs of
           b1 # b2 # r \<Rightarrow>
             if second_ok b0 b1 \<and> cont b2
             then map_option (Cons ((unat b0 - 0xE0) * 4096 + tail6 b1 * 64 + tail6 b2))
                    (utf8_decode r)
             else None
         | _ \<Rightarrow> None)
      else if 0xF0 \<le> b0 \<and> b0 \<le> 0xF4 then
        (case bs of
           b1 # b2 # b3 # r \<Rightarrow>
             if second_ok b0 b1 \<and> cont b2 \<and> cont b3
             then map_option
                    (Cons ((unat b0 - 0xF0) * 262144 + tail6 b1 * 4096 + tail6 b2 * 64 + tail6 b3))
                    (utf8_decode r)
             else None
         | _ \<Rightarrow> None)
      else None)"

text \<open>\<open>s.split(sep)\<close> for a one-character separator: the pieces between the
  separators, in order; always at least one piece (\<open>''.split('\n') == ['']\<close>).\<close>

fun split_on :: "nat \<Rightarrow> pystr \<Rightarrow> pystr list" where
  "split_on d [] = [[]]"
| "split_on d (c # cs) =
     (if c = d then [] # split_on d cs
      else (case split_on d cs of
              [] \<Rightarrow> [[c]]
            | l # ls \<Rightarrow> (c # l) # ls))"

definition newline :: nat where
  "newline = 10"

text \<open>
  The text branch of \<open>_handle_results\<close> for one channel:
  \<^verbatim>\<open>
  self._stdout = str(self._process.readAllStandardOutput(), 'utf-8').split('\n')
  if not self._stdout[-1]:
      self._stdout.pop()
  \<close>
  \<open>split\<close> never returns an empty list, so \<open>[-1]\<close> and \<open>pop\<close> cannot raise.
\<close>

definition text_lines :: "pystr \<Rightarrow> pystr list" where
  "text_lines s =
     (let ls = split_on newline s
      in if last ls = [] then butlast ls else ls)"

definition capture_text :: "byte list \<Rightarrow> pyval result" where
  "capture_text raw =
     (case utf8_decode raw of
        None \<Rightarrow> Raise UnicodeDecodeError
      | Some s \<Rightarrow> Return (PyList (map PyStr (text_lines s))))"

section \<open>The process handle\<close>

text \<open>
  \<open>QProcess\<close> belongs to Qt, not to this repository. The model keeps what the
  module reads and writes: the argument list, the state reported by \<open>state()\<close>, the
  two unread output buffers, and whether \<open>kill()\<close> has been sent.
  \<^item> \<open>start()\<close> on a handle that is not \<open>NotRunning\<close> only prints a warning;
    otherwise the state becomes \<open>Starting\<close>.
  \<^item> \<open>kill()\<close> sends the signal and returns; the state changes only when the exit
    of the process is processed.
  \<^item> \<open>readAllStandardOutput()\<close> and \<open>readAllStandardError()\<close> return the buffer
    and empty it.
\<close>

datatype ProcessState = NotRunning | Starting | Running

record QProcess =
  program :: string
  arguments :: "pystr list"
  pstate :: ProcessState
  out_buf :: "byte list"
  err_buf :: "byte list"
  kill_sent :: bool

definition setArguments :: "pystr list \<Rightarrow> QProcess \<Rightarrow> QProcess" where
  "setArguments a p = p\<lparr>arguments := a\<rparr>"

definition start :: "QProcess \<Rightarrow> QProcess" where
  "start p =
     (if pstate p \<noteq> NotRunning then p
      else p\<lparr>pstate := Starting, out_buf := [], err_buf := [], kill_sent := False\<rparr>)"

definition qkill :: "QProcess \<Rightarrow> QProcess" where
  "qkill p = p\<lparr>kill_sent := True\<rparr>"

definition readAllStandardOutput :: "QProcess \<Rightarrow> byte list \<times> QProcess" where
  "readAllStandardOutput p = (out_buf p, p\<lparr>out_buf := []\<rparr>)"

definition readAllStandardError :: "QProcess \<Rightarrow> byte list \<times> QProcess" where
  "readAllStandardError p = (err_buf p, p\<lparr>err_buf := []\<rparr>)"

text \<open>What the operating system does with a started process: it exits with a code
  and its output, it fails to start, or it is still running when a wait gives up.\<close>

datatype proc_outcome = Exits int "byte list" "byte list" | FailsToStart | TimesOut

definition exited :: "byte list \<Rightarrow> byte list \<Rightarrow> QProcess \<Rightarrow> QProcess" where
  "exited out err p = p\<lparr>pstate := NotRunning, out_buf := out, err_buf := err\<rparr>"

section \<open>class Git\<close>

text \<open>
  The fields of a \<open>Git\<close> object. \<open>executed_hooks\<close> counts the connections of the
  signal \<open>executed\<close> to \<open>GitJobQueue._auto_run_next\<close>, \<open>errorOccurred_conns\<close> the
  slots connected to the signal \<open>errorOccurred\<close>, and \<open>delete_later\<close> records a call
  of \<open>deleteLater()\<close>.
\<close>

record Git =
  preset_args :: "pystr list option"
  git_version :: pyval
  git_isbinary :: bool
  git_stderr :: pyval
  git_stdout :: pyval
  git_process :: QProcess
  executed_hooks :: nat
  errorOccurred_conns :: nat
  delete_later :: bool

definition Git_init :: Git where
  "Git_init =
     \<lparr>preset_args = None, git_version = PyNone, git_isbinary = False,
      git_stderr = PyNone, git_stdout = PyNone,
      git_process = \<lparr>program = ''git'', arguments = [], pstate = NotRunning,
                     out_buf = [], err_buf = [], kill_sent = False\<rparr>,
      executed_hooks = 0, errorOccurred_conns = 0, delete_later = False\<rparr>"

definition start_process :: "pystr list option \<Rightarrow> bool \<Rightarrow> Git \<Rightarrow> unit result \<times> Git" where
  "start_process args isbinary j =
     (case args of
        None \<Rightarrow> (Raise (Exception ''Command 'args' is not specified''), j)
      | Some a \<Rightarrow>
          (Return (),
           j\<lparr>git_stderr := PyNone, git_stdout := PyNone, git_isbinary := isbinary,
             git_process := start (setArguments a (git_process j))\<rparr>))"

definition run :: "pystr list option \<Rightarrow> bool \<Rightarrow> Git \<Rightarrow> unit result \<times> Git" where
  "run args isbinary j =
     (let args' = (if args = None then preset_args j else args)
      in start_process args' isbinary j)"

definition isRunning :: "Git \<Rightarrow> bool" where
  "isRunning j = (\<not> pstate (git_process j) = NotRunning)"

definition kill :: "Git \<Rightarrow> Git" where
  "kill j = (if isRunning j then j\<lparr>git_process := qkill (git_process j)\<rparr> else j)"

definition handle_results :: "Git \<Rightarrow> unit result \<times> Git" where
  "handle_results j =
     (if git_isbinary j then
        (let (err, p1) = readAllStandardError (git_process j);
             j1 = j\<lparr>git_stderr := PyBytes err, git_process := p1\<rparr>;
             (out, p2) = readAllStandardOutput (git_process j1)
         in (Return (), j1\<lparr>git_stdout := PyBytes out, git_process := p2\<rparr>))
      else
        (let (out, p1) = readAllStandardOutput (git_process j);
             j1 = j\<lparr>git_process := p1\<rparr>
         in case capture_text out of
              Raise e \<Rightarrow> (Raise e, j1)
            | Return v \<Rightarrow>
                (let j2 = j1\<lparr>git_stdout := v\<rparr>;
                     (err, p2) = readAllStandardError (git_process j2);
                     j3 = j2\<lparr>git_process := p2\<rparr>
                 in case capture_text err of
                      Raise e \<Rightarrow> (Raise e, j3)
                    | Return v' \<Rightarrow> (Return (), j3\<lparr>git_stderr := v'\<rparr>))))"

text \<open>
  \<open>_finished(exitcode, exitstatus)\<close>, the slot of the process's \<open>finished\<close> signal:
  it fills the result fields and emits the job's own \<open>finished\<close> signal, whose
  receivers live outside this module. It does not emit \<open>executed\<close>.
\<close>

definition finished :: "int \<Rightarrow> Git \<Rightarrow> unit result \<times> Git" where
  "finished exitcode j =
     (case handle_results j of
        (Raise e, j') \<Rightarrow> (Raise e, j')
      | (Return u, j') \<Rightarrow> (Return (), j'))"

text \<open>The process of a running job exits: the handle becomes \<open>NotRunning\<close> with the
  output in its buffers, and Qt calls the slot \<open>_finished\<close>.\<close>

definition process_exits :: "int \<Rightarrow> byte list \<Rightarrow> byte list \<Rightarrow> Git \<Rightarrow> unit result \<times> Git" where
  "process_exits code out err j =
     finished code (j\<lparr>git_process := exited out err (git_process j)\<rparr>)"

text \<open>
  \<open>QProcess.waitForFinished()\<close>: returns \<open>False\<close> at once on a handle that is
  \<open>NotRunning\<close>; otherwise it blocks, and when the process exits the slot
  \<open>_finished\<close> runs inside the call. An exception that escapes the slot is fatal
  there and is passed on as the outcome of the call.
\<close>

definition waitForFinished :: "proc_outcome \<Rightarrow> Git \<Rightarrow> bool result \<times> Git" where
  "waitForFinished oc j =
     (if \<not> isRunning j then (Return False, j)
      else case oc of
             Exits code out err \<Rightarrow>
               (case process_exits code out err j of
                  (Raise e, j') \<Rightarrow> (Raise e, j')
                | (Return u, j') \<Rightarrow> (Return True, j'))
           | FailsToStart \<Rightarrow>
               (Return False, j\<lparr>git_process := (git_process j)\<lparr>pstate := NotRunning\<rparr>\<rparr>)
           | TimesOut \<Rightarrow> (Return False, j))"

definition run_blocking ::
  "pystr list option \<Rightarrow> bool \<Rightarrow> proc_outcome \<Rightarrow> Git \<Rightarrow> pyval result \<times> Git" where
  "run_blocking args isbinary oc j =
     (let args' = (if args = None then preset_args j else args)
      in case start_process args' isbinary j of
           (Raise e, j1) \<Rightarrow> (Raise e, j1)
         | (Return u, j1) \<Rightarrow>
             (case waitForFinished oc j1 of
                (Raise e, j2) \<Rightarrow> (Raise e, j2)
              | (Return b, j2) \<Rightarrow> (Return (PyTuple [git_stdout j2, git_stderr j2]), j2)))"

definition stdout :: "Git \<Rightarrow> pyval result" where
  "stdout j = (if git_stdout j \<noteq> PyNone then Return (git_stdout j) else Return PyNone)"

text \<open>
  \<^verbatim>\<open>
  def stderr(self):
      if self._stderr is not none:
          return self._stderr
      else:
          return None
  \<close>
  The module defines no name \<open>none\<close>, so evaluating the condition raises
  \<open>NameError\<close> whatever the field holds.
\<close>

definition stderr :: "Git \<Rightarrow> pyval result" where
  "stderr j = Raise (NameError ''none'')"

subsection \<open>version\<close>

text \<open>
  \<open>re.match(r'git version (\d+)\.(\d+)\.(\d+)', subject)\<close>. The \<open>re\<close> module
  accepts a \<open>str\<close> subject for a \<open>str\<close> pattern and raises \<open>TypeError\<close> for any
  other object. On a \<open>str\<close> the match is anchored at the start only; each group takes
  the longest run of digits, and since a digit is never a dot there is nothing to
  backtrack into. Digits are the ASCII digits here.
\<close>

definition is_digit :: "nat \<Rightarrow> bool" where
  "is_digit c = (48 \<le> c \<and> c \<le> 57)"

fun strip_prefix :: "pystr \<Rightarrow> pystr \<Rightarrow> pystr option" where
  "strip_prefix [] s = Some s"
| "strip_prefix (p # ps) [] = None"
| "strip_prefix (p # ps) (c # cs) = (if p = c then strip_prefix ps cs else None)"

definition digits1 :: "pystr \<Rightarrow> (pystr \<times> pystr) option" where
  "digits1 s =
     (let ds = takeWhile is_digit s
      in if ds = [] then None else Some (ds, dropWhile is_digit s))"

definition dot :: "pystr \<Rightarrow> pystr option" where
  "dot s = (case s of [] \<Rightarrow> None | c # r \<Rightarrow> if c = 46 then Some r else None)"

definition match_git_version :: "pystr \<Rightarrow> pystr list option" where
  "match_git_version s =
     (case strip_prefix (str_of ''git version '') s of
        None \<Rightarrow> None
      | Some s1 \<Rightarrow>
     (case digits1 s1 of
        None \<Rightarrow> None
      | Some (g1, s2) \<Rightarrow>
     (case dot s2 of
        None \<Rightarrow> None
      | Some s3 \<Rightarrow>
     (case digits1 s3 of
        None \<Rightarrow> None
      | Some (g2, s4) \<Rightarrow>
     (case dot s4 of
        None \<Rightarrow> None
      | Some s5 \<Rightarrow>
     (case digits1 s5 of
        None \<Rightarrow> None
      | Some (g3, s6) \<Rightarrow> Some [g1, g2, g3]))))))"

definition re_match :: "pyval \<Rightarrow> pystr list option result" where
  "re_match subject =
     (case subject of
        PyStr s \<Rightarrow> Return (match_git_version s)
      | _ \<Rightarrow> Raise TypeError)"

definition int_of_digits :: "pystr \<Rightarrow> int" where
  "int_of_digits ds = foldl (\<lambda>a c. 10 * a + int (c - 48)) 0 ds"

text \<open>
  \<^verbatim>\<open>
  if self._version:
      return self._version
  args = ['--version']
  output = self.run_blocking(args) or ''
  match = re.match(r'git version (\d+)\.(\d+)\.(\d+)', output[0])
  if match:
      self._version = tuple(int(g) for g in match.groups())
      return self._version
  else:
      pass
  \<close>
  \<open>oc\<close> is what the \<open>git --version\<close> process does.
\<close>

definition version :: "proc_outcome \<Rightarrow> Git \<Rightarrow> pyval result \<times> Git" where
  "version oc j =
     (if truthy (git_version j) then (Return (git_version j), j)
      else case run_blocking (Some [str_of ''--version'']) False oc j of
             (Raise e, j1) \<Rightarrow> (Raise e, j1)
           | (Return r, j1) \<Rightarrow>
               (let output = (if truthy r then r else PyStr [])
                in case getitem0 output of
                     Raise e \<Rightarrow> (Raise e, j1)
                   | Return first \<Rightarrow>
                       (case re_match first of
                          Raise e \<Rightarrow> (Raise e, j1)
                        | Return None \<Rightarrow> (Return PyNone, j1)
                        | Return (Some groups) \<Rightarrow>
                            (let v = PyTuple (map (\<lambda>g. PyInt (int_of_digits g)) groups)
                             in (Return v, j1\<lparr>git_version := v\<rparr>)))))"

section \<open>class GitJobQueue\<close>

text \<open>
  The queue holds references to \<open>Git\<close> objects, and the same object can be reached
  from the queue and from its caller, so the objects live in a store indexed by
  reference. \<open>queue\<close> is the list \<open>_queue\<close>. \<open>launches\<close> logs, in order, the
  jobs on which the queue has called \<open>run()\<close> and the call has reached
  \<open>QProcess.start()\<close>.
\<close>

type_synonym ref = nat

record world =
  jobs :: "ref \<Rightarrow> Git"
  queue :: "ref list"
  launches :: "ref list"

definition init_world :: "(ref \<Rightarrow> Git) \<Rightarrow> world" where
  "init_world js = \<lparr>jobs = js, queue = [], launches = []\<rparr>"

definition queue0 :: "world \<Rightarrow> ref result" where
  "queue0 w = (case queue w of [] \<Rightarrow> Raise IndexError | r # rest \<Rightarrow> Return r)"

text \<open>\<open>self._queue[0].run()\<close> on the object behind reference \<open>r\<close>.\<close>

definition job_run :: "ref \<Rightarrow> world \<Rightarrow> unit result \<times> world" where
  "job_run r w =
     (case run None False (jobs w r) of
        (Raise e, j') \<Rightarrow> (Raise e, w\<lparr>jobs := (jobs w)(r := j')\<rparr>)
      | (Return u, j') \<Rightarrow>
          (Return (), w\<lparr>jobs := (jobs w)(r := j'), launches := launches w @ [r]\<rparr>))"

definition enqueue :: "ref \<Rightarrow> world \<Rightarrow> unit result \<times> world" where
  "enqueue gitjob w =
     (let w1 = w\<lparr>jobs := (jobs w)(gitjob := (jobs w gitjob)
                   \<lparr>executed_hooks := Suc (executed_hooks (jobs w gitjob))\<rparr>)\<rparr>;
          w2 = w1\<lparr>queue := queue w1 @ [gitjob]\<rparr>
      in if length (queue w2) = 1 then
           (case queue0 w2 of
              Raise e \<Rightarrow> (Raise e, w2)
            | Return r \<Rightarrow> job_run r w2)
         else (Return (), w2))"

definition deleteLater :: "Git \<Rightarrow> Git" where
  "deleteLater j = j\<lparr>delete_later := True\<rparr>"

text \<open>
  \<^verbatim>\<open>
  if self._queue:
      if self._queue[0].isRunning():
          # prevent the git errorOccurred signals being handled
          self._queue[0].errorOccurred.disconnect()
          self._queue[0].kill()
      self._queue[0].deleteLater()
      del self._queue[0]
  \<close>
  \<open>disconnect()\<close> without arguments removes every connection of the signal and
  raises \<open>TypeError\<close> when there is none to remove. The list does not change between
  the reads of \<open>self._queue[0]\<close>, so the head is read once.
\<close>

definition remove_current :: "world \<Rightarrow> unit result \<times> world" where
  "remove_current w =
     (if queue w \<noteq> [] then
        (case queue0 w of
           Raise e \<Rightarrow> (Raise e, w)
         | Return r \<Rightarrow>
             (if isRunning (jobs w r) then
                (if errorOccurred_conns (jobs w r) = 0 then (Raise TypeError, w)
                 else
                   (let j1 = (jobs w r)\<lparr>errorOccurred_conns := 0\<rparr>;
                        j2 = kill j1;
                        j3 = deleteLater j2
                    in (Return (), w\<lparr>jobs := (jobs w)(r := j3), queue := tl (queue w)\<rparr>)))
              else
                (Return (),
                 w\<lparr>jobs := (jobs w)(r := deleteLater (jobs w r)), queue := tl (queue w)\<rparr>)))
      else (Return (), w))"

definition killAll :: "world \<Rightarrow> unit result \<times> world" where
  "killAll w =
     (case remove_current w of
        (Raise e, w1) \<Rightarrow> (Raise e, w1)
      | (Return u, w1) \<Rightarrow>
          (let js = foldl (\<lambda>s job. s(job := deleteLater (s job))) (jobs w1) (queue w1)
           in (Return (), w1\<lparr>jobs := js, queue := []\<rparr>)))"

definition auto_run_next :: "int \<Rightarrow> world \<Rightarrow> unit result \<times> world" where
  "auto_run_next execute_status w =
     (case remove_current w of
        (Raise e, w1) \<Rightarrow> (Raise e, w1)
      | (Return u, w1) \<Rightarrow>
          (if queue w1 \<noteq> [] then
             (case queue0 w1 of
                Raise e \<Rightarrow> (Raise e, w1)
              | Return r \<Rightarrow> job_run r w1)
           else (Return (), w1)))"

section \<open>Events at a queue\<close>

text \<open>
  A queue is driven from outside: its owner calls \<open>enqueue\<close> and \<open>killAll\<close>, Qt
  reports that a process has started or has exited, and a job's \<open>executed\<close> signal
  is emitted. No code of this module emits \<open>executed\<close>, so the emission is an
  event; it calls \<open>_auto_run_next\<close> once for every connection made by \<open>enqueue\<close>.
\<close>

datatype event =
    Enqueue ref
  | KillAll
  | Executed ref int
  | ProcessStarted ref
  | ProcessExited ref int "byte list" "byte list"

fun emit_executed :: "nat \<Rightarrow> int \<Rightarrow> world \<Rightarrow> unit result \<times> world" where
  "emit_executed 0 status w = (Return (), w)"
| "emit_executed (Suc n) status w =
     (case auto_run_next status w of
        (Raise e, w') \<Rightarrow> (Raise e, w')
      | (Return u, w') \<Rightarrow> emit_executed n status w')"

definition process_started :: "Git \<Rightarrow> Git" where
  "process_started j =
     (if pstate (git_process j) = Starting
      then j\<lparr>git_process := (git_process j)\<lparr>pstate := Running\<rparr>\<rparr>
      else j)"

fun step :: "event \<Rightarrow> world \<Rightarrow> unit result \<times> world" where
  "step (Enqueue r) w = enqueue r w"
| "step KillAll w = killAll w"
| "step (Executed r status) w = emit_executed (executed_hooks (jobs w r)) status w"
| "step (ProcessStarted r) w =
     (Return (), w\<lparr>jobs := (jobs w)(r := process_started (jobs w r))\<rparr>)"
| "step (ProcessExited r code out err) w =
     (if isRunning (jobs w r) then
        (case process_exits code out err (jobs w r) of
           (res, j') \<Rightarrow> (res, w\<lparr>jobs := (jobs w)(r := j')\<rparr>))
      else (Return (), w))"

text \<open>An exception ends the call that raised it; the queue object stays as the call
  left it and the next event finds it so.\<close>

fun exec :: "event list \<Rightarrow> world \<Rightarrow> world" where
  "exec [] w = w"
| "exec (e # es) w = exec es (snd (step e w))"

text \<open>
  What the owner of a queue may do: a job is handed over once at a time, and it is
  idle when it joins jobs that wait. Everything else is allowed at any moment.
\<close>

fun env_ok :: "event \<Rightarrow> world \<Rightarrow> bool" where
  "env_ok (Enqueue r) w =
     (r \<notin> set (queue w) \<and> (queue w = [] \<or> \<not> isRunning (jobs w r)))"
| "env_ok e w = True"

fun env_run :: "event list \<Rightarrow> world \<Rightarrow> bool" where
  "env_run [] w = True"
| "env_run (e # es) w = (env_ok e w \<and> env_run es (snd (step e w)))"

definition queue_inv :: "world \<Rightarrow> bool" where
  "queue_inv w =
     (distinct (queue w) \<and> list_all (\<lambda>r. \<not> isRunning (jobs w r)) (tl (queue w)))"





section \<open>Example objects\<close>

definition job_with :: "string list \<Rightarrow> Git" where
  "job_with args = Git_init\<lparr>preset_args := Some (map str_of args)\<rparr>"

definition bytes_of :: "string \<Rightarrow> byte list" where
  "bytes_of s = map of_char s"

definition started_job :: Git where
  "started_job = snd (run None False (job_with [''status'']))"

definition ex_jobs :: "ref \<Rightarrow> Git" where
  "ex_jobs r = job_with [''status'']"

definition ex_world :: world where
  "ex_world = init_world ex_jobs"

definition ex_jobs_conn :: "ref \<Rightarrow> Git" where
  "ex_jobs_conn r = (job_with [''status''])\<lparr>errorOccurred_conns := 1\<rparr>"

definition ex_running :: world where
  "ex_running = snd (enqueue 1 (snd (enqueue 0 (init_world ex_jobs_conn))))"

definition ex_events :: "event list" where
  "ex_events =
     [Enqueue 0, Enqueue 1, ProcessStarted 0, ProcessExited 0 0 [] [], Executed 0 0]"


definition ex_finished :: world where
  "ex_finished = exec [Enqueue 0, Enqueue 1, ProcessExited 0 0 [] []] ex_world"


text \<open>\<open>sep.join(pieces)\<close>, the inverse of \<open>split\<close>; used to state what the
  captured lines are.\<close>

fun join_lines :: "nat \<Rightarrow> pystr list \<Rightarrow> pystr" where
  "join_lines d [] = []"
| "join_lines d [l] = l"
| "join_lines d (l # ls) = l @ d # join_lines d ls"

section \<open>Line splitting\<close>

lemma split_on_ne: "split_on d s \<noteq> []"
  by (induction s) (auto split: list.splits)

lemma split_on_no_sep: "l \<in> set (split_on d s) \<Longrightarrow> d \<notin> set l"
  by (induction s arbitrary: l) (auto split: list.splits if_splits)

lemma join_lines_cons: "join_lines d ((a # l) # ls) = a # join_lines d (l # ls)"
  by (cases ls) auto

lemma join_split: "join_lines d (split_on d s) = s"
proof (induction s)
  case Nil
  show ?case by simp
next
  case (Cons a s)
  obtain l ls where sp: "split_on d s = l # ls"
    using split_on_ne by (cases "split_on d s") auto
  show ?case
  proof (cases "a = d")
    case True
    with sp Cons show ?thesis by simp
  next
    case False
    with sp Cons show ?thesis by (simp add: join_lines_cons)
  qed
qed

lemma split_on_single: "(split_on d s = [[]]) = (s = [])"
  using split_on_ne by (cases s) (auto split: list.splits)

lemma split_last: "(last (split_on d s) = []) = (s = [] \<or> last s = d)"
proof (induction s)
  case Nil
  show ?case by simp
next
  case (Cons a s)
  obtain l ls where sp: "split_on d s = l # ls"
    using split_on_ne by (cases "split_on d s") auto
  show ?case
  proof (cases "s = []")
    case True
    then show ?thesis by simp
  next
    case False
    with Cons sp show ?thesis
      apply (cases "a = d")
       apply simp
      apply (cases ls)
      using split_on_single[of d s] apply auto
      done
  qed
qed

lemma join_butlast:
  "ls \<noteq> [] \<Longrightarrow> last ls = [] \<Longrightarrow>
   join_lines d ls = (if butlast ls = [] then [] else join_lines d (butlast ls) @ [d])"
  by (induction d ls rule: join_lines.induct) auto

lemma text_lines_no_newline: "l \<in> set (text_lines s) \<Longrightarrow> newline \<notin> set l"
  by (auto simp: text_lines_def Let_def split: if_splits
      dest: split_on_no_sep in_set_butlastD)

lemma text_lines_empty: "(text_lines s = []) = (s = [])"
proof -
  let ?ls = "split_on newline s"
  have ne: "?ls \<noteq> []" by (rule split_on_ne)
  have "butlast ?ls = [] \<longleftrightarrow> (\<exists>x. ?ls = [x])"
    using ne by (cases ?ls) auto
  then have "last ?ls = [] \<Longrightarrow> (butlast ?ls = []) = (s = [])"
    using split_on_single[of newline s] by auto
  moreover have "last ?ls \<noteq> [] \<Longrightarrow> s \<noteq> []"
    by (simp add: split_last)
  ultimately show ?thesis
    using ne by (auto simp: text_lines_def Let_def)
qed

lemma text_lines_join:
  "join_lines newline (text_lines s) =
   (if s \<noteq> [] \<and> last s = newline then butlast s else s)"
proof -
  let ?ls = "split_on newline s"
  have ne: "?ls \<noteq> []" by (rule split_on_ne)
  have js: "join_lines newline ?ls = s" by (rule join_split)
  show ?thesis
  proof (cases "last ?ls = []")
    case True
    then have tl: "text_lines s = butlast ?ls" by (simp add: text_lines_def)
    from True have c: "s = [] \<or> last s = newline" by (simp add: split_last)
    have jb: "s = (if butlast ?ls = [] then []
                   else join_lines newline (butlast ?ls) @ [newline])"
      using join_butlast[OF ne True, of newline] js by simp
    show ?thesis
    proof (cases "s = []")
      case True
      then show ?thesis by (simp add: text_lines_def)
    next
      case False
      with jb have "s = join_lines newline (butlast ?ls) @ [newline]"
        by (auto split: if_splits)
      then have "butlast s = join_lines newline (butlast ?ls)"
        by (metis butlast_snoc)
      with False c tl show ?thesis by simp
    qed
  next
    case False
    then have "text_lines s = ?ls" by (simp add: text_lines_def)
    moreover from False have "\<not> (s = [] \<or> last s = newline)" by (simp add: split_last)
    ultimately show ?thesis using js by simp
  qed
qed

lemma handle_results_text:
  assumes "\<not> git_isbinary j"
    and "utf8_decode (out_buf (git_process j)) = Some s"
    and "utf8_decode (err_buf (git_process j)) = Some t"
  shows "fst (handle_results j) = Return ()"
    and "git_stdout (snd (handle_results j)) = PyList (map PyStr (text_lines s))"
    and "git_stderr (snd (handle_results j)) = PyList (map PyStr (text_lines t))"
  using assms
  by (simp_all add: handle_results_def readAllStandardOutput_def readAllStandardError_def
      capture_text_def)

lemmas job_defs =
  run_def start_process_def job_with_def Git_init_def start_def setArguments_def
  run_blocking_def waitForFinished_def isRunning_def process_exits_def finished_def
  handle_results_def exited_def readAllStandardOutput_def readAllStandardError_def
  capture_text_def text_lines_def newline_def str_of_def bytes_of_def

text \<open>
  C5. In text mode the completion handler decodes each channel as UTF-8 and splits it
  at newlines, dropping a final empty piece: when both channels decode, \<open>_stdout\<close>
  and \<open>_stderr\<close> become the lists \<open>text_lines\<close> of the decoded texts; no line of
  \<open>text_lines s\<close> contains a newline, joining the lines with newlines gives \<open>s\<close>
  without one trailing newline, and the list is empty only for empty output. The raw
  bytes \<open>a\nb\n\<close> and \<open>a\nb\<close> both give the lines \<open>a\<close>, \<open>b\<close>.
\<close>

theorem text_capture_lines:
  "(\<not> git_isbinary j \<and> utf8_decode (out_buf (git_process j)) = Some s \<and>
      utf8_decode (err_buf (git_process j)) = Some t \<longrightarrow>
      fst (handle_results j) = Return () \<and>
      git_stdout (snd (handle_results j)) = PyList (map PyStr (text_lines s)) \<and>
      git_stderr (snd (handle_results j)) = PyList (map PyStr (text_lines t))) \<and>
   (\<forall>l \<in> set (text_lines s). newline \<notin> set l) \<and>
   join_lines newline (text_lines s) =
     (if s \<noteq> [] \<and> last s = newline then butlast s else s) \<and>
   (text_lines s = [] \<longleftrightarrow> s = []) \<and>
   git_stdout (snd (process_exits 0 (bytes_of ''a\<newline>b\<newline>'') [] started_job)) =
     PyList [PyStr (str_of ''a''), PyStr (str_of ''b'')] \<and>
   git_stdout (snd (process_exits 0 (bytes_of ''a\<newline>b'') [] started_job)) =
     PyList [PyStr (str_of ''a''), PyStr (str_of ''b'')]"
proof -
  have ex1: "git_stdout (snd (process_exits 0 (bytes_of ''a\<newline>b\<newline>'') [] started_job)) =
     PyList [PyStr (str_of ''a''), PyStr (str_of ''b'')]"
    by (simp add: started_job_def job_defs)
  have ex2: "git_stdout (snd (process_exits 0 (bytes_of ''a\<newline>b'') [] started_job)) =
     PyList [PyStr (str_of ''a''), PyStr (str_of ''b'')]"
    by (simp add: started_job_def job_defs)
  show ?thesis
    using ex1 ex2 handle_results_text[of j s t] text_lines_no_newline[of _ s]
      text_lines_join[of s] text_lines_empty[of s]
    by blast
qed

theorem text_capture_lines_witness:
  "\<not> git_isbinary (started_job\<lparr>git_process := exited (bytes_of ''a\<newline>b\<newline>'') []
        (git_process started_job)\<rparr>) \<and>
   git_stdout (snd (handle_results (started_job\<lparr>git_process :=
        exited (bytes_of ''a\<newline>b\<newline>'') [] (git_process started_job)\<rparr>))) =
     PyList [PyStr [97], PyStr [98]] \<and>
   git_stderr (snd (handle_results (started_job\<lparr>git_process :=
        exited (bytes_of ''a\<newline>b\<newline>'') [] (git_process started_job)\<rparr>))) = PyList [] \<and>
   text_lines [97, 10, 98, 10] = [[97], [98]] \<and>
   join_lines newline (text_lines [97, 10, 98, 10]) = [97, 10, 98]"
  using text_capture_lines
    [of "started_job\<lparr>git_process := exited (bytes_of ''a\<newline>b\<newline>'') []
           (git_process started_job)\<rparr>" "[97, 10, 98, 10]" "[]"]
  by (simp add: started_job_def job_defs)

section \<open>Running a job\<close>

lemma run_blocking_as_run:
  "run_blocking args b oc j =
   (case run args b j of
      (Raise e, j1) \<Rightarrow> (Raise e, j1)
    | (Return u, j1) \<Rightarrow>
        (case waitForFinished oc j1 of
           (Raise e, j2) \<Rightarrow> (Raise e, j2)
         | (Return ok, j2) \<Rightarrow> (Return (PyTuple [git_stdout j2, git_stderr j2]), j2)))"
  by (simp add: run_blocking_def run_def)

lemma stdout_before_completion: "stdout (snd (run (Some a) b j)) = Return PyNone"
  by (simp add: stdout_def run_def start_process_def)

lemma stdout_after_completion:
  "fst (process_exits code out err j) = Return () \<Longrightarrow>
   stdout (snd (process_exits code out err j)) \<noteq> Return PyNone"
  by (auto simp: stdout_def process_exits_def finished_def handle_results_def capture_text_def
      readAllStandardOutput_def readAllStandardError_def Let_def
      split: prod.splits result.splits option.splits if_splits)



text \<open>
  C3, at a job started with \<open>run\<close> and at the same job after its process has exited
  with no output: \<open>stdout()\<close> returns \<open>None\<close> before and the empty list after, the
  field \<open>_stderr\<close> holds the empty list after, and \<open>stderr()\<close> raises \<open>NameError\<close>
  both times.
\<close>

theorem stderr_accessor_raises:
  "stdout started_job = Return PyNone \<and>
   stderr started_job = Raise (NameError ''none'') \<and>
   stdout (snd (process_exits 0 [] [] started_job)) = Return (PyList []) \<and>
   git_stderr (snd (process_exits 0 [] [] started_job)) = PyList [] \<and>
   stderr (snd (process_exits 0 [] [] started_job)) = Raise (NameError ''none'')"
  by (simp add: started_job_def stdout_def stderr_def job_defs)


section \<open>The version query\<close>

lemma match_git_version_example:
  "match_git_version (str_of ''git version 2.30.1'') =
   Some [str_of ''2'', str_of ''30'', str_of ''1'']"
  by (simp add: match_git_version_def str_of_def digits1_def dot_def is_digit_def)

lemma int_of_digits_example:
  "map int_of_digits [str_of ''2'', str_of ''30'', str_of ''1''] = [2, 30, 1]"
  by (simp add: int_of_digits_def str_of_def)

lemma handle_results_stdout:
  "\<not> git_isbinary j \<Longrightarrow> git_stdout j = PyNone \<Longrightarrow>
   git_stdout (snd (handle_results j)) = PyNone \<or> (\<exists>ls. git_stdout (snd (handle_results j)) = PyList ls)"
  by (auto simp: handle_results_def readAllStandardOutput_def readAllStandardError_def
      capture_text_def Let_def split: option.splits)

lemma snd_finished: "snd (finished c j) = snd (handle_results j)"
  by (simp add: finished_def split: prod.splits result.splits)

lemma re_match_not_str: "v = PyNone \<or> (\<exists>ls. v = PyList ls) \<Longrightarrow> re_match v = Raise TypeError"
  by (auto simp: re_match_def)

lemma wait_stdout:
  assumes "\<not> git_isbinary j" "git_stdout j = PyNone"
  shows "git_stdout (snd (waitForFinished oc j)) = PyNone \<or>
         (\<exists>ls. git_stdout (snd (waitForFinished oc j)) = PyList ls)"
proof (cases "isRunning j")
  case False
  with assms show ?thesis by (simp add: waitForFinished_def)
next
  case True
  show ?thesis
  proof (cases oc)
    case (Exits c out err)
    let ?j = "j\<lparr>git_process := exited out err (git_process j)\<rparr>"
    have "snd (waitForFinished oc j) = snd (finished c ?j)"
      using True Exits
      by (cases "finished c ?j"; cases "fst (finished c ?j)")
         (auto simp: waitForFinished_def process_exits_def)
    then have "snd (waitForFinished oc j) = snd (handle_results ?j)"
      by (simp add: snd_finished)
    moreover have "\<not> git_isbinary ?j" "git_stdout ?j = PyNone" using assms by simp_all
    ultimately show ?thesis using handle_results_stdout[of ?j] by simp
  next
    case FailsToStart
    with True assms show ?thesis by (simp add: waitForFinished_def)
  next
    case TimesOut
    with True assms show ?thesis by (simp add: waitForFinished_def)
  qed
qed

text \<open>With an empty cache \<open>version()\<close> never returns, whatever the process does:
  the subject passed to \<open>re.match\<close> is \<open>None\<close> or a list.\<close>

lemma version_empty_cache_raises:
  assumes "\<not> truthy (git_version j)"
  shows "\<exists>e. fst (version oc j) = Raise e"
proof -
  let ?j1 = "j\<lparr>git_stderr := PyNone, git_stdout := PyNone, git_isbinary := False,
             git_process := start (setArguments [str_of ''--version''] (git_process j))\<rparr>"
  have w: "git_stdout (snd (waitForFinished oc ?j1)) = PyNone \<or>
         (\<exists>ls. git_stdout (snd (waitForFinished oc ?j1)) = PyList ls)"
    by (rule wait_stdout) simp_all
  then have m: "re_match (git_stdout (snd (waitForFinished oc ?j1))) = Raise TypeError"
    by (rule re_match_not_str)
  show ?thesis
    using assms m
    by (cases "waitForFinished oc ?j1"; cases "fst (waitForFinished oc ?j1)")
       (auto simp: version_def run_blocking_def start_process_def)
qed

text \<open>
  C2, at a new job whose \<open>git --version\<close> process prints \<open>git version 2.30.1\<close>:
  \<open>version()\<close> raises \<open>TypeError\<close>, because \<open>output[0]\<close> is the list of captured
  lines and not its first line; \<open>_version\<close> stays \<open>None\<close>. Output that does not
  match raises the same \<open>TypeError\<close>.
\<close>

theorem version_raises_TypeError:
  "fst (version (Exits 0 (bytes_of ''git version 2.30.1\<newline>'') []) Git_init) = Raise TypeError \<and>
   git_version (snd (version (Exits 0 (bytes_of ''git version 2.30.1\<newline>'') []) Git_init)) =
     PyNone \<and>
   git_stdout (snd (version (Exits 0 (bytes_of ''git version 2.30.1\<newline>'') []) Git_init)) =
     PyList [PyStr (str_of ''git version 2.30.1'')] \<and>
   fst (version (Exits 0 (bytes_of ''usage: git\<newline>'') []) Git_init) = Raise TypeError"
  by (simp add: version_def re_match_def job_defs)

section \<open>Queue operations\<close>

text \<open>
  C9. \<open>enqueue\<close> into an empty queue of a job with preset arguments returns with the
  job as the only element, launched and running. \<open>enqueue\<close> into a queue that is not
  empty connects the hook and appends the job, and does nothing else: no job is
  launched and no process changes.
\<close>

theorem enqueue_launches_when_empty:
  "(queue w = [] \<and> preset_args (jobs w r) \<noteq> None \<longrightarrow>
      fst (enqueue r w) = Return () \<and> queue (snd (enqueue r w)) = [r] \<and>
      isRunning (jobs (snd (enqueue r w)) r) \<and>
      launches (snd (enqueue r w)) = launches w @ [r]) \<and>
   (queue w \<noteq> [] \<longrightarrow>
      enqueue r w =
        (Return (),
         w\<lparr>jobs := (jobs w)(r := (jobs w r)\<lparr>executed_hooks := Suc (executed_hooks (jobs w r))\<rparr>),
           queue := queue w @ [r]\<rparr>))"
  by (auto simp: enqueue_def Let_def queue0_def job_run_def run_def start_process_def
      isRunning_def start_def setArguments_def split: if_splits)

theorem enqueue_launches_when_empty_witness:
  "queue ex_world = [] \<and> preset_args (jobs ex_world 0) \<noteq> None \<and>
   fst (enqueue 0 ex_world) = Return () \<and>
   queue (snd (enqueue 0 ex_world)) = [0] \<and>
   isRunning (jobs (snd (enqueue 0 ex_world)) 0) \<and>
   launches (snd (enqueue 0 ex_world)) = [0] \<and>
   queue (snd (enqueue 0 ex_world)) \<noteq> [] \<and>
   fst (enqueue 1 (snd (enqueue 0 ex_world))) = Return () \<and>
   queue (snd (enqueue 1 (snd (enqueue 0 ex_world)))) = [0, 1] \<and>
   launches (snd (enqueue 1 (snd (enqueue 0 ex_world)))) = [0] \<and>
   \<not> isRunning (jobs (snd (enqueue 1 (snd (enqueue 0 ex_world)))) 1)"
proof -
  have h1: "queue ex_world = []" "preset_args (jobs ex_world 0) \<noteq> None"
    by (simp_all add: ex_world_def init_world_def ex_jobs_def job_with_def Git_init_def)
  from enqueue_launches_when_empty [of ex_world 0] h1
  have a: "fst (enqueue 0 ex_world) = Return ()" "queue (snd (enqueue 0 ex_world)) = [0]"
    "isRunning (jobs (snd (enqueue 0 ex_world)) 0)"
    "launches (snd (enqueue 0 ex_world)) = launches ex_world @ [0]"
    by blast+
  have l0: "launches ex_world = []"
    by (simp add: ex_world_def init_world_def)
  from a(2) have ne: "queue (snd (enqueue 0 ex_world)) \<noteq> []" by simp
  from enqueue_launches_when_empty [of "snd (enqueue 0 ex_world)" 1] ne
  have b: "enqueue 1 (snd (enqueue 0 ex_world)) =
     (Return (),
      (snd (enqueue 0 ex_world))\<lparr>jobs := (jobs (snd (enqueue 0 ex_world)))
          (1 := (jobs (snd (enqueue 0 ex_world)) 1)
             \<lparr>executed_hooks := Suc (executed_hooks (jobs (snd (enqueue 0 ex_world)) 1))\<rparr>),
        queue := queue (snd (enqueue 0 ex_world)) @ [1]\<rparr>)"
    by blast
  have c: "\<not> isRunning (jobs (snd (enqueue 0 ex_world)) 1)"
    by (simp add: enqueue_def queue0_def job_run_def run_def start_process_def
        ex_world_def init_world_def ex_jobs_def job_with_def Git_init_def isRunning_def)
  have d: "fst (enqueue 1 (snd (enqueue 0 ex_world))) = Return () \<and>
     queue (snd (enqueue 1 (snd (enqueue 0 ex_world)))) = queue (snd (enqueue 0 ex_world)) @ [1] \<and>
     launches (snd (enqueue 1 (snd (enqueue 0 ex_world)))) = launches (snd (enqueue 0 ex_world)) \<and>
     isRunning (jobs (snd (enqueue 1 (snd (enqueue 0 ex_world)))) 1) =
       isRunning (jobs (snd (enqueue 0 ex_world)) 1)"
    using b by (simp add: isRunning_def)
  show ?thesis
    using h1 a l0 ne c d by simp
qed

text \<open>
  C10. On an empty queue \<open>_remove_current\<close> takes the branch that touches nothing, the
  loop of \<open>killAll\<close> has no element to visit, and \<open>killAll\<close> returns without an
  exception, with every object unchanged and the queue empty.
\<close>

theorem killAll_empty_noop:
  "queue w = [] \<Longrightarrow>
   remove_current w = (Return (), w) \<and> killAll w = (Return (), w) \<and>
   queue (snd (killAll w)) = []"
  by (simp add: killAll_def remove_current_def)

theorem killAll_empty_noop_witness:
  "queue ex_world = [] \<and> killAll ex_world = (Return (), ex_world) \<and>
   queue (snd (killAll ex_world)) = []"
  using killAll_empty_noop [of ex_world]
  by (simp add: ex_world_def init_world_def)

section \<open>Invariants of the queue\<close>

lemma start_running: "pstate (start p) \<noteq> NotRunning"
  by (simp add: start_def)


lemma run_preset:
  "preset_args j \<noteq> None \<Longrightarrow> fst (run None b j) = Return () \<and> isRunning (snd (run None b j))"
  by (auto simp: run_def start_process_def isRunning_def start_running)

lemma run_no_preset:
  "preset_args j = None \<Longrightarrow> run None b j = (Raise (Exception ''Command 'args' is not specified''), j)"
  by (simp add: run_def start_process_def)

lemma handle_results_fields:
  "preset_args (snd (handle_results j)) = preset_args j"
  "executed_hooks (snd (handle_results j)) = executed_hooks j"
  "errorOccurred_conns (snd (handle_results j)) = errorOccurred_conns j"
  "delete_later (snd (handle_results j)) = delete_later j"
  "pstate (git_process (snd (handle_results j))) = pstate (git_process j)"
  by (simp_all add: handle_results_def readAllStandardOutput_def readAllStandardError_def
      Let_def split: result.splits)

lemma process_exits_fields:
  "preset_args (snd (process_exits c out err j)) = preset_args j"
  "executed_hooks (snd (process_exits c out err j)) = executed_hooks j"
  "errorOccurred_conns (snd (process_exits c out err j)) = errorOccurred_conns j"
  "delete_later (snd (process_exits c out err j)) = delete_later j"
  "\<not> isRunning (snd (process_exits c out err j))"
  by (simp_all add: process_exits_def snd_finished handle_results_fields exited_def isRunning_def)

lemma process_started_fields:
  "preset_args (process_started j) = preset_args j"
  "executed_hooks (process_started j) = executed_hooks j"
  "isRunning (process_started j) = isRunning j"
  by (auto simp: process_started_def isRunning_def)

lemma job_run_queue: "queue (snd (job_run r w)) = queue w"
  by (simp add: job_run_def split: prod.splits result.splits)

lemma job_run_jobs: "jobs (snd (job_run r w)) = (jobs w)(r := snd (run None False (jobs w r)))"
  by (simp add: job_run_def split: prod.splits result.splits)

lemma job_run_launches:
  "launches (snd (job_run r w)) =
   (if preset_args (jobs w r) = None then launches w else launches w @ [r])"
proof (cases "preset_args (jobs w r)")
  case None
  then show ?thesis by (simp add: job_run_def run_no_preset)
next
  case (Some a)
  then have "fst (run None False (jobs w r)) = Return ()"
    using run_preset[of "jobs w r" False] by simp
  with Some show ?thesis
    by (cases "run None False (jobs w r)") (simp add: job_run_def)
qed

lemma job_run_fst:
  "fst (job_run r w) =
   (if preset_args (jobs w r) = None
    then Raise (Exception ''Command 'args' is not specified'') else Return ())"
proof (cases "preset_args (jobs w r)")
  case None
  then show ?thesis by (simp add: job_run_def run_no_preset)
next
  case (Some a)
  then have "fst (run None False (jobs w r)) = Return ()"
    using run_preset[of "jobs w r" False] by simp
  with Some show ?thesis
    by (cases "run None False (jobs w r)") (simp add: job_run_def)
qed

lemma remove_current_cases:
  "remove_current w = (Raise TypeError, w) \<or>
   (fst (remove_current w) = Return () \<and> queue (snd (remove_current w)) = tl (queue w) \<and>
    launches (snd (remove_current w)) = launches w \<and>
    (\<forall>r. r \<notin> set (take 1 (queue w)) \<longrightarrow> jobs (snd (remove_current w)) r = jobs w r))"
  by (cases "queue w") (auto simp: remove_current_def queue0_def Let_def)


lemma queue_inv_set:
  "queue_inv w =
   (distinct (queue w) \<and> (\<forall>r \<in> set (tl (queue w)). \<not> isRunning (jobs w r)))"
  by (simp add: queue_inv_def list_all_iff)

lemma remove_current_inv:
  assumes "queue_inv w"
  shows "queue_inv (snd (remove_current w))"
    and "fst (remove_current w) = Return () \<Longrightarrow>
         \<forall>r \<in> set (queue (snd (remove_current w))). \<not> isRunning (jobs (snd (remove_current w)) r)"
proof -
  have both: "queue_inv (snd (remove_current w)) \<and>
    (fst (remove_current w) = Return () \<longrightarrow>
     (\<forall>r \<in> set (queue (snd (remove_current w))).
        \<not> isRunning (jobs (snd (remove_current w)) r)))"
  proof (cases "queue w")
    case Nil
    then show ?thesis using assms by (simp add: remove_current_def)
  next
    case (Cons h rest)
    from remove_current_cases[of w] show ?thesis
    proof
      assume "remove_current w = (Raise TypeError, w)"
      with assms show ?thesis by simp
    next
      assume a: "fst (remove_current w) = Return () \<and>
        queue (snd (remove_current w)) = tl (queue w) \<and>
        launches (snd (remove_current w)) = launches w \<and>
        (\<forall>r. r \<notin> set (take 1 (queue w)) \<longrightarrow> jobs (snd (remove_current w)) r = jobs w r)"
      from assms Cons have d: "h \<notin> set rest" "distinct rest"
        and idle: "\<forall>r \<in> set rest. \<not> isRunning (jobs w r)"
        by (simp_all add: queue_inv_set)
      from a Cons have q: "queue (snd (remove_current w)) = rest" by simp
      from a Cons d have j: "\<forall>r \<in> set rest. jobs (snd (remove_current w)) r = jobs w r"
        by auto
      have "\<forall>r \<in> set rest. \<not> isRunning (jobs (snd (remove_current w)) r)"
        using j idle by simp
      moreover have "set (tl rest) \<subseteq> set rest"
        by (cases rest) auto
      ultimately show ?thesis
        using q d by (auto simp: queue_inv_set)
    qed
  qed
  from both show "queue_inv (snd (remove_current w))" by simp
  from both show "fst (remove_current w) = Return () \<Longrightarrow>
         \<forall>r \<in> set (queue (snd (remove_current w))). \<not> isRunning (jobs (snd (remove_current w)) r)"
    by simp
qed

lemma snd_auto_run_next:
  "snd (auto_run_next st w) =
   (if fst (remove_current w) = Return () \<and> queue (snd (remove_current w)) \<noteq> []
    then snd (job_run (hd (queue (snd (remove_current w)))) (snd (remove_current w)))
    else snd (remove_current w))"
  by (cases "remove_current w"; cases "fst (remove_current w)";
      cases "queue (snd (remove_current w))")
     (auto simp: auto_run_next_def queue0_def)

lemma auto_run_next_inv:
  assumes "queue_inv w"
  shows "queue_inv (snd (auto_run_next st w))"
proof (cases "fst (remove_current w) = Return () \<and> queue (snd (remove_current w)) \<noteq> []")
  case False
  have "snd (auto_run_next st w) = snd (remove_current w)"
    by (simp only: snd_auto_run_next if_not_P[OF False])
  then show ?thesis
    using remove_current_inv(1)[OF assms] by simp
next
  case True
  let ?w1 = "snd (remove_current w)"
  from True obtain h rest where q: "queue ?w1 = h # rest" by (cases "queue ?w1") auto
  from remove_current_inv[OF assms] True
  have "distinct (queue ?w1)" "\<forall>r \<in> set (queue ?w1). \<not> isRunning (jobs ?w1 r)"
    by (simp_all add: queue_inv_set)
  with q have "queue_inv (snd (job_run h ?w1))"
    by (auto simp: queue_inv_set job_run_queue job_run_jobs)
  moreover have "snd (auto_run_next st w) = snd (job_run (hd (queue ?w1)) ?w1)"
    by (simp only: snd_auto_run_next if_P[OF True])
  ultimately show ?thesis using q by simp
qed

lemma auto_run_next_launches:
  "launches (snd (auto_run_next st w)) = launches w \<or>
   (queue (snd (auto_run_next st w)) \<noteq> [] \<and>
    launches (snd (auto_run_next st w)) = launches w @ [queue (snd (auto_run_next st w)) ! 0])"
  using remove_current_cases[of w]
  by (auto simp: auto_run_next_def queue0_def job_run_queue job_run_launches split: prod.splits result.splits list.splits)

lemma enqueue_launches:
  "launches (snd (enqueue r w)) = launches w \<or>
   (queue (snd (enqueue r w)) \<noteq> [] \<and>
    launches (snd (enqueue r w)) = launches w @ [queue (snd (enqueue r w)) ! 0])"
  by (auto simp: enqueue_def Let_def queue0_def job_run_queue job_run_launches split: prod.splits result.splits list.splits)

lemma killAll_launches: "launches (snd (killAll w)) = launches w"
  using remove_current_cases[of w]
  by (auto simp: killAll_def Let_def split: prod.splits result.splits)

lemma killAll_inv: "queue_inv w \<Longrightarrow> queue_inv (snd (killAll w))"
  using remove_current_cases[of w]
  by (auto simp: killAll_def Let_def queue_inv_set split: prod.splits result.splits)

lemma emit_executed_inv: "queue_inv w \<Longrightarrow> queue_inv (snd (emit_executed n st w))"
proof (induction n arbitrary: w)
  case 0
  then show ?case by simp
next
  case (Suc n)
  from auto_run_next_inv[OF Suc.prems, of st] Suc.IH[of "snd (auto_run_next st w)"]
  show ?case by (auto split: prod.splits result.splits)
qed

lemma enqueue_inv:
  assumes "queue_inv w" "env_ok (Enqueue r) w"
  shows "queue_inv (snd (enqueue r w))"
proof (cases "queue w")
  case Nil
  then show ?thesis
    by (simp add: enqueue_def Let_def queue0_def queue_inv_set job_run_queue)
next
  case (Cons h rest)
  with assms show ?thesis
    by (auto simp: enqueue_def Let_def queue_inv_set isRunning_def)
qed

lemma step_inv:
  assumes "queue_inv w" "env_ok e w"
  shows "queue_inv (snd (step e w))"
proof (cases e)
  case (Enqueue r)
  with assms enqueue_inv show ?thesis by simp
next
  case KillAll
  with assms killAll_inv show ?thesis by simp
next
  case (Executed r st)
  with assms emit_executed_inv show ?thesis by simp
next
  case (ProcessStarted r)
  with assms show ?thesis
    by (auto simp: queue_inv_set process_started_fields)
next
  case (ProcessExited r c out err)
  with assms process_exits_fields(5)[of c out err "jobs w r"] show ?thesis
    by (auto simp: queue_inv_set split: prod.splits)
qed

lemma env_run_inv: "queue_inv w \<Longrightarrow> env_run es w \<Longrightarrow> queue_inv (exec es w)"
  by (induction es arbitrary: w) (auto simp: step_inv)

lemma init_inv: "queue_inv (init_world js)"
  by (simp add: queue_inv_def init_world_def)

lemmas world_defs = ex_world_def init_world_def ex_jobs_def job_with_def Git_init_def
  enqueue_def queue0_def job_run_def run_def start_process_def start_def setArguments_def
  isRunning_def process_started_def process_exits_def finished_def handle_results_def exited_def
  readAllStandardOutput_def readAllStandardError_def capture_text_def text_lines_def newline_def
  auto_run_next_def remove_current_def deleteLater_def kill_def qkill_def killAll_def str_of_def

text \<open>
  C8. From the empty queue, whatever the owner and the processes do (a job is enqueued
  when it is not in the queue, and idle when the queue is not empty), the queue holds
  no job twice and no job behind the head is running; every event keeps this so from
  any state where it holds. \<open>enqueue\<close> and \<open>_auto_run_next\<close> launch nothing or
  exactly the job at index 0 of the queue they leave, and \<open>killAll\<close> launches
  nothing.
\<close>

theorem head_only_running_invariant:
  "(env_run es (init_world js) \<longrightarrow> queue_inv (exec es (init_world js))) \<and>
   (queue_inv w \<and> env_ok e w \<longrightarrow> queue_inv (snd (step e w))) \<and>
   (launches (snd (enqueue r w)) = launches w \<or>
    (queue (snd (enqueue r w)) \<noteq> [] \<and>
     launches (snd (enqueue r w)) = launches w @ [queue (snd (enqueue r w)) ! 0])) \<and>
   (launches (snd (auto_run_next st w)) = launches w \<or>
    (queue (snd (auto_run_next st w)) \<noteq> [] \<and>
     launches (snd (auto_run_next st w)) = launches w @ [queue (snd (auto_run_next st w)) ! 0])) \<and>
   launches (snd (killAll w)) = launches w"
  using env_run_inv[OF init_inv, of es js] step_inv[of w e] enqueue_launches[of r w]
    auto_run_next_launches[of st w] killAll_launches[of w]
  by blast

theorem head_only_running_invariant_witness:
  "env_run ex_events (init_world ex_jobs) \<and> queue_inv (exec ex_events (init_world ex_jobs)) \<and>
   queue (exec ex_events (init_world ex_jobs)) = [1] \<and>
   queue_inv ex_finished \<and> env_ok (Executed 0 0) ex_finished \<and>
   queue_inv (snd (step (Executed 0 0) ex_finished))"
proof -
  have p: "env_run ex_events (init_world ex_jobs)"
    by (simp add: ex_events_def world_defs)
  have q: "queue (exec ex_events (init_world ex_jobs)) = [1]"
    by (simp add: ex_events_def world_defs)
  have i: "queue_inv ex_finished"
    by (simp add: queue_inv_def ex_finished_def world_defs)
  have k: "env_ok (Executed 0 0) ex_finished" by simp
  from head_only_running_invariant [of ex_events ex_jobs ex_finished "Executed 0 0"] p i k
  have "queue_inv (exec ex_events (init_world ex_jobs))"
    "queue_inv (snd (step (Executed 0 0) ex_finished))"
    by blast+
  with p q i k show ?thesis by simp
qed

section \<open>Cancelling\<close>

lemma mark_deleted:
  "foldl (\<lambda>s job. s(job := deleteLater (s job))) js xs r =
   (if r \<in> set xs then deleteLater (js r) else js r)"
  by (induction xs arbitrary: js) (auto simp: deleteLater_def)

lemmas mark_deleted_unfolded = mark_deleted [unfolded deleteLater_def]

text \<open>
  C4, as stated, at a queue with job 0 running and job 1 waiting: when \<open>killAll\<close>
  returns, the hook that \<open>enqueue\<close> connected to the signal \<open>executed\<close> of the
  killed job is still connected. The signal that was disconnected is
  \<open>errorOccurred\<close>.
\<close>

theorem killAll_keeps_executed_hook:
  "queue ex_running = [0, 1] \<and> isRunning (jobs ex_running 0) \<and>
   \<not> isRunning (jobs ex_running 1) \<and>
   fst (killAll ex_running) = Return () \<and>
   executed_hooks (jobs (snd (killAll ex_running)) 0) \<noteq> 0 \<and>
   errorOccurred_conns (jobs ex_running 0) = 1 \<and>
   errorOccurred_conns (jobs (snd (killAll ex_running)) 0) = 0"
  by (simp add: ex_running_def ex_jobs_conn_def world_defs)

text \<open>
  C4, amended. \<open>killAll\<close> on a queue whose head \<open>h\<close> is running, with a slot
  connected to its signal \<open>errorOccurred\<close>, and with the jobs \<open>rest\<close> waiting:
  it returns without an exception and launches nothing; the queue is empty; the
  \<open>errorOccurred\<close> signal of the head has lost its connections and its process has
  been sent \<open>kill\<close>; every job that was in the queue is marked by \<open>deleteLater\<close>;
  no hook on \<open>executed\<close> has been removed from any job, and the objects outside
  the queue are untouched.
\<close>

theorem killAll_running_head:
  assumes "queue w = h # rest" "isRunning (jobs w h)" "errorOccurred_conns (jobs w h) \<noteq> 0"
  shows "fst (killAll w) = Return () \<and> queue (snd (killAll w)) = [] \<and>
    launches (snd (killAll w)) = launches w \<and>
    errorOccurred_conns (jobs (snd (killAll w)) h) = 0 \<and>
    kill_sent (git_process (jobs (snd (killAll w)) h)) \<and>
    (\<forall>r \<in> set (h # rest). delete_later (jobs (snd (killAll w)) r)) \<and>
    (\<forall>r. executed_hooks (jobs (snd (killAll w)) r) = executed_hooks (jobs w r)) \<and>
    (\<forall>r. r \<notin> set (h # rest) \<longrightarrow> jobs (snd (killAll w)) r = jobs w r)"
  using assms
  by (auto simp: killAll_def remove_current_def queue0_def Let_def mark_deleted_unfolded
      deleteLater_def kill_def qkill_def isRunning_def)

theorem killAll_running_head_witness:
  "queue ex_running = [0, 1] \<and> isRunning (jobs ex_running 0) \<and>
   errorOccurred_conns (jobs ex_running 0) \<noteq> 0 \<and>
   fst (killAll ex_running) = Return () \<and> queue (snd (killAll ex_running)) = [] \<and>
   errorOccurred_conns (jobs (snd (killAll ex_running)) 0) = 0 \<and>
   kill_sent (git_process (jobs (snd (killAll ex_running)) 0)) \<and>
   delete_later (jobs (snd (killAll ex_running)) 0) \<and>
   delete_later (jobs (snd (killAll ex_running)) 1) \<and>
   executed_hooks (jobs (snd (killAll ex_running)) 0) = 1 \<and>
   executed_hooks (jobs (snd (killAll ex_running)) 1) = 1"
proof -
  have h: "queue ex_running = [0, 1]" "isRunning (jobs ex_running 0)"
    "errorOccurred_conns (jobs ex_running 0) \<noteq> 0"
    "executed_hooks (jobs ex_running 0) = 1" "executed_hooks (jobs ex_running 1) = 1"
    by (simp_all add: ex_running_def ex_jobs_conn_def world_defs)
  note k = killAll_running_head [OF h(1,2,3)]
  from k have "delete_later (jobs (snd (killAll ex_running)) 0)"
    "delete_later (jobs (snd (killAll ex_running)) 1)" by simp_all
  with h k show ?thesis by simp
qed

section \<open>Order of execution\<close>













end
